theory Spec2Isabelle
  imports
    Complex_Main
    "HOL-Library.Multiset"
    "HOL-Library.Char_ord"
    "HOL-Library.List_Lexorder"
begin

section \<open>Shared data\<close>

text \<open>
  The repository is a set of pandas scripts. A data frame is modelled as the list of its
  rows, a nullable cell (NaN, None, NaT) as an \<open>option\<close>, a Python float as a
  \<open>real\<close> (rounding is not modelled) and a pincode, which the scripts obtain with
  \<open>pd.to_numeric(..., errors='coerce')\<close>, as an \<open>int option\<close> where \<open>None\<close> is the
  NaN of an unparseable cell.
\<close>

datatype py_error = IndexError | ProviderError

text \<open>A row of \<open>pincode_coordinates_google.csv\<close>, with the columns that
  \<open>get_coordinates_for_pincode\<close> writes.\<close>

record coord_row =
  pincode :: int
  latitude :: "real option"
  longitude :: "real option"
  city :: "string option"
  state :: "string option"
  formatted_address :: "string option"

section \<open>fetch\_coordinates.py\<close>

subsection \<open>The geocoding response\<close>

record component =
  types :: "string list"
  long_name :: string

text \<open>A candidate of the response, with the values under the keys that the function
  reads: \<open>geometry.location.lat\<close> and \<open>lng\<close>, \<open>address_components\<close> and
  \<open>formatted_address\<close>. The provider's response carries them in every candidate.\<close>

record candidate =
  lat :: real
  lng :: real
  address_components :: "component list"
  candidate_address :: string

text \<open>The provider: for a pincode either an exception or the ordered candidate list
  that \<open>gmaps.geocode\<close> returns.\<close>

type_synonym geocoder = "int \<Rightarrow> py_error + candidate list"

text \<open>The \<open>for component in address_components\<close> loop of lines 29-35, with the two
  local variables \<open>city\<close> and \<open>state\<close> passed along.\<close>

fun extract_city_state ::
  "component list \<Rightarrow> string option \<times> string option \<Rightarrow> string option \<times> string option" where
  "extract_city_state [] (cty, st) = (cty, st)"
| "extract_city_state (c # cs) (cty, st) =
     (if ''locality'' \<in> set (types c) then extract_city_state cs (Some (long_name c), st)
      else if ''administrative_area_level_1'' \<in> set (types c)
        then extract_city_state cs (cty, Some (long_name c))
      else extract_city_state cs (cty, st))"

text \<open>Lines 18-50. The \<open>except Exception\<close> branch and the empty result both return
  \<open>None\<close>.\<close>

definition get_coordinates_for_pincode :: "geocoder \<Rightarrow> int \<Rightarrow> coord_row option" where
  "get_coordinates_for_pincode gmaps pin =
     (case gmaps pin of
        Inl e \<Rightarrow> None
      | Inr [] \<Rightarrow> None
      | Inr (r # rest) \<Rightarrow>
          (case extract_city_state (address_components r) (None, None) of
             (cty, st) \<Rightarrow>
               Some \<lparr>pincode = pin, latitude = Some (lat r), longitude = Some (lng r),
                     city = cty, state = st,
                     formatted_address = Some (candidate_address r)\<rparr>))"

subsection \<open>The reconciliation run\<close>

text \<open>The values of a column that are not null, in order: \<open>dropna\<close> on one column
  (line 81) and the \<open>skipna\<close> of pandas' reductions.\<close>

definition dropna :: "'a option list \<Rightarrow> 'a list" where
  "dropna col = concat (map (\<lambda>c. case c of None \<Rightarrow> [] | Some v \<Rightarrow> [v]) col)"

text \<open>Line 84: \<open>sorted(address_df['CPA_PIN_CODE'].unique())\<close>.\<close>

definition unique_pincodes :: "int option list \<Rightarrow> int list" where
  "unique_pincodes col = sort (remdups (dropna col))"

text \<open>The numbers that a run which reaches the end prints: line 89, lines 130-131 and
  the summary block of lines 133-139.\<close>

record run_report =
  need_to_fetch :: nat
  saved_new :: nat
  total_in_cache :: nat
  total_processed :: nat
  successful :: nat

text \<open>What a run leaves behind: the cache file (\<open>None\<close> when it does not exist), the
  pincodes it sent to the provider, in order, and the report when it reached the end.\<close>

record run_result =
  cache_after :: "coord_row list option"
  fetched :: "int list"
  report :: "run_report option"

text \<open>Lines 57-75: the pincodes taken as cached. \<open>response\<close> is the answer to the mode
  prompt after \<open>strip().upper()\<close>; it is read only when the cache file exists. The
  answer \<open>U\<close> ends the run before this point.\<close>

definition cached_pincodes :: "string \<Rightarrow> coord_row list option \<Rightarrow> int set" where
  "cached_pincodes response cache_file =
     (case cache_file of
        None \<Rightarrow> {}
      | Some cached_df \<Rightarrow> if response = ''A'' then set (map pincode cached_df) else {})"

text \<open>Lines 58-66: the run ends at once when the cache file exists and the answer is
  \<open>U\<close>.\<close>

definition use_existing :: "string \<Rightarrow> coord_row list option \<Rightarrow> bool" where
  "use_existing response cache_file \<longleftrightarrow> cache_file \<noteq> None \<and> response = ''U''"

text \<open>The fetch loop of lines 106-113: a result that is not \<open>None\<close> is appended to
  \<open>results\<close>, a failed pincode is passed over.\<close>

fun fetch_loop :: "geocoder \<Rightarrow> int list \<Rightarrow> coord_row list \<Rightarrow> coord_row list" where
  "fetch_loop gmaps [] results = results"
| "fetch_loop gmaps (p # ps) results =
     (case get_coordinates_for_pincode gmaps p of
        None \<Rightarrow> fetch_loop gmaps ps results
      | Some r \<Rightarrow> fetch_loop gmaps ps (results @ [r]))"

text \<open>Lines 52-139. \<open>confirm\<close> is the answer to the second prompt after
  \<open>strip().lower()\<close>; \<open>col\<close> is the coerced pincode column of the address file.\<close>

definition main ::
  "geocoder \<Rightarrow> string \<Rightarrow> string \<Rightarrow> int option list \<Rightarrow> coord_row list option \<Rightarrow> run_result" where
  "main gmaps response confirm col cache_file =
     (if use_existing response cache_file
      then \<lparr>cache_after = cache_file, fetched = [], report = None\<rparr>
      else
        let cached = cached_pincodes response cache_file;
            pincodes_to_fetch = filter (\<lambda>p. p \<notin> cached) (unique_pincodes col)
        in if length pincodes_to_fetch = 0
           then \<lparr>cache_after = cache_file, fetched = [], report = None\<rparr>
           else if confirm \<noteq> ''y''
           then \<lparr>cache_after = cache_file, fetched = [], report = None\<rparr>
           else
             let results = fetch_loop gmaps pincodes_to_fetch [];
                 combined_df =
                   (case cache_file of
                      None \<Rightarrow> results
                    | Some cached_df \<Rightarrow> if cached \<noteq> {} then cached_df @ results else results)
             in \<lparr>cache_after = Some combined_df,
                 fetched = pincodes_to_fetch,
                 report = Some \<lparr>need_to_fetch = length pincodes_to_fetch,
                                 saved_new = length results,
                                 total_in_cache = length combined_df,
                                 total_processed = length results,
                                 successful = length results\<rparr>\<rparr>)"

section \<open>app.py\<close>

subsection \<open>load\_data\<close>

text \<open>A row of \<open>Address Details.csv\<close> after the column-wise coercions of lines 25 and
  29-30: the pincode after \<open>pd.to_numeric\<close>, the year of the parsed registration date.\<close>

record address_row =
  CPA_PIN_CODE :: "int option"
  CPA_ADDR_CITY :: "string option"
  Year :: "int option"

text \<open>A row of \<open>merged_df\<close> after the renaming of lines 41-45.\<close>

record merged_row = address_row +
  Latitude :: "real option"
  Longitude :: "real option"
  StateName :: "string option"

text \<open>Line 26.\<close>

definition dropna_pin :: "address_row list \<Rightarrow> address_row list" where
  "dropna_pin address_df = filter (\<lambda>r. CPA_PIN_CODE r \<noteq> None) address_df"

text \<open>Lines 33-38, \<open>how='left'\<close>: every address row is kept, once for each cache row
  with its pincode, or once with no cache row.\<close>

definition merge_left ::
  "address_row list \<Rightarrow> coord_row list \<Rightarrow> (address_row \<times> coord_row option) list" where
  "merge_left address_df pincode_coords =
     concat (map (\<lambda>r.
       case filter (\<lambda>c. CPA_PIN_CODE r = Some (pincode c)) pincode_coords of
         [] \<Rightarrow> [(r, None)]
       | c # cs \<Rightarrow> map (\<lambda>m. (r, Some m)) (c # cs)) address_df)"

text \<open>Lines 41-48: the renamed cache columns, and the cache city with the address city
  as its fallback (\<open>fillna\<close>).\<close>

definition rename_fillna :: "address_row \<times> coord_row option \<Rightarrow> merged_row" where
  "rename_fillna rc =
     (case rc of (r, m) \<Rightarrow>
        \<lparr>CPA_PIN_CODE = CPA_PIN_CODE r,
         CPA_ADDR_CITY = (case Option.bind m city of None \<Rightarrow> CPA_ADDR_CITY r | Some c \<Rightarrow> Some c),
         Year = Year r,
         Latitude = Option.bind m latitude,
         Longitude = Option.bind m longitude,
         StateName = Option.bind m state\<rparr>)"

text \<open>Line 51.\<close>

definition dropna_coords :: "merged_row list \<Rightarrow> merged_row list" where
  "dropna_coords merged_df = filter (\<lambda>r. Latitude r \<noteq> None \<and> Longitude r \<noteq> None) merged_df"

definition load_data :: "address_row list \<Rightarrow> coord_row list \<Rightarrow> merged_row list" where
  "load_data address_df pincode_coords =
     dropna_coords (map rename_fillna (merge_left (dropna_pin address_df) pincode_coords))"


subsection \<open>The aggregation of lines 82-105\<close>

text \<open>Lines 83-86; \<open>None\<close> is the option \<open>All Years\<close>. The filter reads the year
  only, so it is defined on every frame that has the address columns.\<close>

definition filter_year ::
  "int option \<Rightarrow> 'a address_row_scheme list \<Rightarrow> 'a address_row_scheme list" where
  "filter_year selected_year df =
     (case selected_year of None \<Rightarrow> df | Some y \<Rightarrow> filter (\<lambda>r. Year r = Some y) df)"

text \<open>\<open>groupby('CPA_PIN_CODE')\<close>: the group keys are the distinct pincodes that are not
  null, in ascending order; a group holds the rows of its key in frame order.\<close>

definition group_keys :: "merged_row list \<Rightarrow> int list" where
  "group_keys df = sort (remdups (dropna (map CPA_PIN_CODE df)))"

definition group_rows :: "int \<Rightarrow> merged_row list \<Rightarrow> merged_row list" where
  "group_rows k df = filter (\<lambda>r. CPA_PIN_CODE r = Some k) df"

text \<open>Line 89.\<close>

definition pincode_counts :: "merged_row list \<Rightarrow> (int \<times> nat) list" where
  "pincode_counts df = map (\<lambda>k. (k, length (group_rows k df))) (group_keys df)"

text \<open>pandas' \<open>median\<close> of a column: nulls are skipped, the values are ordered, and the
  result is the middle value or the mean of the two middle values (NaN on no value).\<close>

definition median :: "real option list \<Rightarrow> real option" where
  "median col =
     (let vals = sort (dropna col); n = length vals
      in if n = 0 then None
         else if n mod 2 = 1 then Some (vals ! (n div 2))
         else Some ((vals ! (n div 2 - 1) + vals ! (n div 2)) / 2))"

text \<open>pandas' \<open>mode\<close> of a column: the most frequent of the values that are not null,
  every one of them when several tie, in ascending order.\<close>

definition mode :: "string option list \<Rightarrow> string list" where
  "mode x =
     (let vals = dropna x; top = fold max (map (count_list vals) vals) 0
      in sort (remdups (filter (\<lambda>v. count_list vals v = top) vals)))"

text \<open>The lambda of lines 95 and 96: \<open>x.mode()[0] if len(x.mode()) > 0 else x.iloc[0]\<close>.
  \<open>iloc[0]\<close> raises on a column with no row.\<close>

definition most_common :: "string option list \<Rightarrow> py_error + string option" where
  "most_common x =
     (if length (mode x) > 0 then Inr (Some (mode x ! 0))
      else (case x of [] \<Rightarrow> Inl IndexError | v # vs \<Rightarrow> Inr v))"

text \<open>A row of \<open>pincode_locations\<close> and a row of \<open>pincode_summary\<close>.\<close>

record pincode_location =
  key_pincode :: int
  median_Latitude :: "real option"
  median_Longitude :: "real option"
  common_city :: "string option"
  common_state :: "string option"

record summary_row = pincode_location +
  customer_count :: nat
  percentage :: real

text \<open>Lines 92-97 on one group.\<close>

definition agg_group :: "int \<Rightarrow> merged_row list \<Rightarrow> py_error + pincode_location" where
  "agg_group k g =
     (case most_common (map CPA_ADDR_CITY g) of
        Inl e \<Rightarrow> Inl e
      | Inr c \<Rightarrow>
          (case most_common (map StateName g) of
             Inl e \<Rightarrow> Inl e
           | Inr s \<Rightarrow>
               Inr \<lparr>key_pincode = k,
                    median_Latitude = median (map Latitude g),
                    median_Longitude = median (map Longitude g),
                    common_city = c, common_state = s\<rparr>))"

text \<open>Lines 92-97 over the groups in key order; an exception of the lambda ends the
  aggregation.\<close>

fun agg_groups :: "merged_row list \<Rightarrow> int list \<Rightarrow> py_error + pincode_location list" where
  "agg_groups df [] = Inr []"
| "agg_groups df (k # ks) =
     (case agg_group k (group_rows k df) of
        Inl e \<Rightarrow> Inl e
      | Inr l \<Rightarrow>
          (case agg_groups df ks of
             Inl e \<Rightarrow> Inl e
           | Inr ls \<Rightarrow> Inr (l # ls)))"

definition pincode_locations :: "merged_row list \<Rightarrow> py_error + pincode_location list" where
  "pincode_locations df = agg_groups df (group_keys df)"

text \<open>Line 100: the inner join of the counts with the locations on the pincode.\<close>

definition merge_on_pincode ::
  "(int \<times> nat) list \<Rightarrow> pincode_location list \<Rightarrow> (nat \<times> pincode_location) list" where
  "merge_on_pincode counts locations =
     concat (map (\<lambda>kc. map (\<lambda>l. (snd kc, l)) (filter (\<lambda>l. key_pincode l = fst kc) locations))
       counts)"

text \<open>Lines 103-104 on one row. On an empty frame no row exists, so the division by a
  zero total is never evaluated.\<close>

definition with_percentage :: "nat \<Rightarrow> nat \<times> pincode_location \<Rightarrow> summary_row" where
  "with_percentage total_customers cl =
     \<lparr>key_pincode = key_pincode (snd cl),
      median_Latitude = median_Latitude (snd cl),
      median_Longitude = median_Longitude (snd cl),
      common_city = common_city (snd cl),
      common_state = common_state (snd cl),
      customer_count = fst cl,
      percentage = real (fst cl) / real total_customers * 100\<rparr>"

text \<open>
  Line 105: \<open>sort_values('customer_count', ascending=False)\<close> with the default
  \<open>kind='quicksort'\<close>. pandas computes an indexer, a permutation of the row positions
  that puts the key column in descending order, and takes the rows at it. The sort is
  not stable, so which of the admissible indexers comes out is not fixed by the call:
  the indexer routine is a parameter, and \<open>argsort_desc_ok\<close> is all that is known of it.
\<close>

definition argsort_desc_ok :: "nat list \<Rightarrow> nat list \<Rightarrow> bool" where
  "argsort_desc_ok ks indexer \<longleftrightarrow>
     mset indexer = mset [0..<length ks] \<and> sorted_wrt (\<lambda>i j. ks ! j \<le> ks ! i) indexer"

definition sort_values_desc ::
  "(nat list \<Rightarrow> nat list) \<Rightarrow> summary_row list \<Rightarrow> summary_row list" where
  "sort_values_desc argsort df = map (\<lambda>i. df ! i) (argsort (map customer_count df))"

text \<open>The indexer of a stable sort (\<open>kind='stable'\<close>): it sorts and keeps rows of
  equal key in frame order.\<close>

definition stable_argsort :: "nat list \<Rightarrow> nat list" where
  "stable_argsort ks = sort_key (\<lambda>i. - int (ks ! i)) [0..<length ks]"

text \<open>Lines 82-105.\<close>

definition pincode_summary ::
  "(nat list \<Rightarrow> nat list) \<Rightarrow> int option \<Rightarrow> merged_row list \<Rightarrow> py_error + summary_row list" where
  "pincode_summary argsort selected_year df =
     (let filtered_df = filter_year selected_year df;
          counts = pincode_counts filtered_df
      in case pincode_locations filtered_df of
           Inl e \<Rightarrow> Inl e
         | Inr locations \<Rightarrow>
             Inr (sort_values_desc argsort
                    (map (with_percentage (length filtered_df))
                       (merge_on_pincode counts locations))))"

subsection \<open>Marker and cluster colours\<close>

datatype color = red | orange | lightgreen | lightblue

text \<open>Lines 228-235 and 240-247: the colour of the marker of one pincode.\<close>

definition marker_color_percentage :: "real \<Rightarrow> color" where
  "marker_color_percentage pct =
     (if pct \<ge> 10 then red else if pct \<ge> 5 then orange
      else if pct \<ge> 1 then lightgreen else lightblue)"

definition marker_color_count :: "nat \<Rightarrow> color" where
  "marker_color_count n =
     (if n > 1000 then red else if n > 500 then orange
      else if n > 100 then lightgreen else lightblue)"

text \<open>Lines 140-172 and 174-198: the colour of a cluster, from the sums over its
  markers.\<close>

definition cluster_color_percentage :: "real list \<Rightarrow> color" where
  "cluster_color_percentage pcts =
     (let sumPct = sum_list pcts
      in if sumPct \<ge> 10 then red else if sumPct \<ge> 5 then orange
         else if sumPct \<ge> 1 then lightgreen else lightblue)"

definition cluster_color_count :: "nat list \<Rightarrow> color" where
  "cluster_color_count counts =
     (let sum = sum_list counts
      in if sum > 1000 then red else if sum > 500 then orange
         else if sum \<ge> 100 then lightgreen else lightblue)"

text \<open>Lines 333-337, the legend of the count mode, headed "Individual Pincodes and
  Clusters": red above 1,000, orange 500-1,000, green 100-499, blue below 100.\<close>

definition legend_color_count :: "nat \<Rightarrow> color" where
  "legend_color_count n =
     (if n > 1000 then red else if 500 \<le> n then orange
      else if 100 \<le> n then lightgreen else lightblue)"

subsection \<open>The sort that line 105 runs\<close>

text \<open>
  \<open>sort_values\<close> with the default \<open>kind='quicksort'\<close> and \<open>ascending=False\<close> takes its
  indexer from pandas' \<open>nargsort\<close>: the key column is reversed, numpy's \<open>argsort\<close>
  sorts the reversed column in ascending order, and the positions it returns, read in
  the reversed numbering, are reversed again. numpy's quicksort on an index array
  (\<open>aquicksort\<close> of npysort) is embedded in its portable form: a segment of more than
  17 entries is split around the median of its first, middle and last key, a shorter one
  is sorted by insertion, and a segment that is taken from the stack with the depth
  budget used up goes to heapsort, which is not embedded (\<open>None\<close>). \<open>v\<close> is the key
  array, \<open>t\<close> the index array \<open>tosort\<close>, and \<open>pl\<close>, \<open>pr\<close>, \<open>pm\<close>, \<open>p_i\<close>, \<open>pj\<close>
  are the positions that the routine keeps as pointers. Builds of numpy with a
  vectorised quicksort order equal keys in other ways; the embedding is of the portable
  routine.
\<close>



















section \<open>Example data\<close>

definition delhi_candidate :: candidate where
  "delhi_candidate = \<lparr>lat = 286/10, lng = 772/10,
     address_components =
       [\<lparr>types = [''postal_code''], long_name = ''110001''\<rparr>,
        \<lparr>types = [''locality'', ''political''], long_name = ''New Delhi''\<rparr>,
        \<lparr>types = [''administrative_area_level_1'', ''political''], long_name = ''Delhi''\<rparr>],
     candidate_address = ''New Delhi, Delhi 110001, India''\<rparr>"

definition bare_candidate :: candidate where
  "bare_candidate = \<lparr>lat = 1297/100, lng = 7759/100,
     address_components = [\<lparr>types = [''postal_code''], long_name = ''560001''\<rparr>],
     candidate_address = ''560001, India''\<rparr>"

text \<open>A provider that knows two pincodes, has no candidate for a third and fails on
  every other one.\<close>

definition example_gmaps :: geocoder where
  "example_gmaps p =
     (if p = 110001 then Inr [delhi_candidate, bare_candidate]
      else if p = 560001 then Inr [bare_candidate]
      else if p = 600001 then Inr []
      else Inl ProviderError)"

definition delhi_row :: coord_row where
  "delhi_row = \<lparr>pincode = 110001, latitude = Some (286/10), longitude = Some (772/10),
     city = Some ''New Delhi'', state = Some ''Delhi'',
     formatted_address = Some ''New Delhi, Delhi 110001, India''\<rparr>"

definition mumbai_row :: coord_row where
  "mumbai_row = \<lparr>pincode = 400001, latitude = Some (1894/100), longitude = Some (7283/100),
     city = Some ''Mumbai'', state = Some ''Maharashtra'',
     formatted_address = Some ''Mumbai, Maharashtra 400001, India''\<rparr>"

definition bangalore_row :: coord_row where
  "bangalore_row = \<lparr>pincode = 560001, latitude = Some (1297/100), longitude = Some (7759/100),
     city = Some ''Bengaluru'', state = Some ''Karnataka'',
     formatted_address = Some ''Bengaluru, Karnataka 560001, India''\<rparr>"

text \<open>Address rows: two in one cached pincode, one with an unparseable pincode, one in
  a pincode that is not cached, one in a second cached pincode.\<close>

definition scenario_addresses :: "address_row list" where
  "scenario_addresses =
     [\<lparr>CPA_PIN_CODE = Some 110001, CPA_ADDR_CITY = Some ''Delhi'', Year = Some 2021\<rparr>,
      \<lparr>CPA_PIN_CODE = Some 110001, CPA_ADDR_CITY = Some ''Delhi'', Year = Some 2022\<rparr>,
      \<lparr>CPA_PIN_CODE = None, CPA_ADDR_CITY = Some ''Pune'', Year = Some 2022\<rparr>,
      \<lparr>CPA_PIN_CODE = Some 700001, CPA_ADDR_CITY = Some ''Kolkata'', Year = None\<rparr>,
      \<lparr>CPA_PIN_CODE = Some 560001, CPA_ADDR_CITY = Some ''Bangalore'', Year = Some 2022\<rparr>]"

text \<open>A cache file that holds several rows for one pincode, with coordinates that
  differ slightly, and the address rows joined with it.\<close>

definition resolved_twice :: "coord_row list" where
  "resolved_twice =
     [\<lparr>pincode = 560001, latitude = Some (1297/100), longitude = Some (7759/100),
       city = Some ''Bengaluru'', state = Some ''Karnataka'', formatted_address = None\<rparr>,
      \<lparr>pincode = 110001, latitude = Some (2860/100), longitude = Some (7720/100),
       city = Some ''New Delhi'', state = Some ''Delhi'', formatted_address = None\<rparr>,
      \<lparr>pincode = 560001, latitude = Some (1303/100), longitude = Some (7760/100),
       city = Some ''Bengaluru'', state = Some ''Karnataka'', formatted_address = None\<rparr>,
      \<lparr>pincode = 110001, latitude = Some (2864/100), longitude = Some (7722/100),
       city = Some ''New Delhi'', state = Some ''Delhi'', formatted_address = None\<rparr>,
      \<lparr>pincode = 560001, latitude = Some (1299/100), longitude = Some (7758/100),
       city = Some ''Bengaluru'', state = Some ''Karnataka'', formatted_address = None\<rparr>]"

definition two_addresses :: "address_row list" where
  "two_addresses =
     [\<lparr>CPA_PIN_CODE = Some 560001, CPA_ADDR_CITY = Some ''Bangalore'', Year = Some 2022\<rparr>,
      \<lparr>CPA_PIN_CODE = Some 110001, CPA_ADDR_CITY = None, Year = Some 2022\<rparr>]"

text \<open>A pincode for which neither the cache nor the address file names a city or a
  state.\<close>

definition nameless_row :: coord_row where
  "nameless_row = \<lparr>pincode = 700001, latitude = Some (2257/100), longitude = Some (8836/100),
     city = None, state = None, formatted_address = Some ''700001, India''\<rparr>"

definition nameless_addresses :: "address_row list" where
  "nameless_addresses =
     [\<lparr>CPA_PIN_CODE = Some 700001, CPA_ADDR_CITY = None, Year = Some 2023\<rparr>,
      \<lparr>CPA_PIN_CODE = Some 700001, CPA_ADDR_CITY = None, Year = None\<rparr>]"




text \<open>A candidate whose only named component is typed both as a locality and as an
  administrative area of level 1.\<close>

definition chandigarh_candidate :: candidate where
  "chandigarh_candidate = \<lparr>lat = 3074/100, lng = 7679/100,
     address_components =
       [\<lparr>types = [''postal_code''], long_name = ''160017''\<rparr>,
        \<lparr>types = [''locality'', ''administrative_area_level_1'', ''political''],
         long_name = ''Chandigarh''\<rparr>],
     candidate_address = ''Chandigarh 160017, India''\<rparr>"

section \<open>The geocoding adapter\<close>

lemma extract_city_state_last:
  "extract_city_state cs (c0, s0) =
     (if filter (\<lambda>c. ''locality'' \<in> set (types c)) cs = [] then c0
      else Some (long_name (last (filter (\<lambda>c. ''locality'' \<in> set (types c)) cs))),
      if filter (\<lambda>c. ''locality'' \<notin> set (types c)
                      \<and> ''administrative_area_level_1'' \<in> set (types c)) cs = [] then s0
      else Some (long_name (last (filter (\<lambda>c. ''locality'' \<notin> set (types c)
                      \<and> ''administrative_area_level_1'' \<in> set (types c)) cs))))"
  by (induction cs "(c0, s0)" arbitrary: c0 s0 rule: extract_city_state.induct) auto

text \<open>
  C5, as the claim states it, fails for the state: the loop of lines 31-35 tests the
  type \<open>administrative_area_level_1\<close> in an \<open>elif\<close>, so a component that is also typed
  \<open>locality\<close> gives the city only. For a candidate whose one named component carries
  both types the lookup returns that name as the city and a null state, although a
  component typed \<open>administrative_area_level_1\<close> exists.
\<close>

theorem state_of_locality_component_counterexample:
  "map types (address_components chandigarh_candidate)
     = [[''postal_code''], [''locality'', ''administrative_area_level_1'', ''political'']]
   \<and> get_coordinates_for_pincode (\<lambda>p. Inr [chandigarh_candidate]) 160017 =
       Some \<lparr>pincode = 160017, latitude = Some (3074/100), longitude = Some (7679/100),
              city = Some ''Chandigarh'', state = None,
              formatted_address = Some ''Chandigarh 160017, India''\<rparr>"
  by (simp add: get_coordinates_for_pincode_def chandigarh_candidate_def)

text \<open>
  C5, amended. When the provider answers with at least one candidate, the lookup
  succeeds and its row is fixed by the first candidate alone: the coordinate of that
  candidate, as city the name of its last component typed \<open>locality\<close>, as state the
  name of its last component typed \<open>administrative_area_level_1\<close> and not typed
  \<open>locality\<close>, and a null city or state when the candidate has no such component.
\<close>

theorem resolve_first_candidate:
  assumes "gmaps pin = Inr (r # rest)"
  shows "get_coordinates_for_pincode gmaps pin =
     Some \<lparr>pincode = pin, latitude = Some (lat r), longitude = Some (lng r),
            city = (if filter (\<lambda>c. ''locality'' \<in> set (types c)) (address_components r) = []
                    then None
                    else Some (long_name (last (filter (\<lambda>c. ''locality'' \<in> set (types c))
                                                    (address_components r))))),
            state = (if filter (\<lambda>c. ''locality'' \<notin> set (types c)
                                   \<and> ''administrative_area_level_1'' \<in> set (types c))
                          (address_components r) = []
                     then None
                     else Some (long_name (last (filter (\<lambda>c. ''locality'' \<notin> set (types c)
                                   \<and> ''administrative_area_level_1'' \<in> set (types c))
                          (address_components r))))),
            formatted_address = Some (candidate_address r)\<rparr>"
  using assms by (simp add: get_coordinates_for_pincode_def extract_city_state_last)

theorem resolve_first_candidate_witness:
  "example_gmaps 110001 = Inr (delhi_candidate # [bare_candidate])
   \<and> get_coordinates_for_pincode example_gmaps 110001 = Some delhi_row
   \<and> example_gmaps 560001 = Inr (bare_candidate # [])
   \<and> get_coordinates_for_pincode example_gmaps 560001 =
       Some \<lparr>pincode = 560001, latitude = Some (1297/100), longitude = Some (7759/100),
              city = None, state = None, formatted_address = Some ''560001, India''\<rparr>"
proof -
  have a: "example_gmaps 110001 = Inr (delhi_candidate # [bare_candidate])"
    by (simp add: example_gmaps_def)
  have b: "example_gmaps 560001 = Inr (bare_candidate # [])"
    by (simp add: example_gmaps_def)
  show ?thesis
    using a b
      resolve_first_candidate [of example_gmaps 110001 delhi_candidate "[bare_candidate]"]
      resolve_first_candidate [of example_gmaps 560001 bare_candidate "[]"]
    by (simp add: delhi_candidate_def bare_candidate_def delhi_row_def)
qed

section \<open>The reconciliation run\<close>

lemma fetch_loop_append:
  "fetch_loop gmaps ps acc =
     acc @ concat (map (\<lambda>p. case get_coordinates_for_pincode gmaps p of
                             None \<Rightarrow> [] | Some r \<Rightarrow> [r]) ps)"
  by (induction ps arbitrary: acc) (auto split: option.splits)

lemma set_fetch_loop:
  "set (fetch_loop gmaps ps []) = {r. \<exists>p \<in> set ps. get_coordinates_for_pincode gmaps p = Some r}"
  by (auto simp: fetch_loop_append split: option.splits)

lemma length_fetch_loop:
  "length (fetch_loop gmaps ps []) =
     length (filter (\<lambda>p. get_coordinates_for_pincode gmaps p \<noteq> None) ps)"
  by (induction ps) (auto simp: fetch_loop_append split: option.splits)

lemma get_coordinates_pincode:
  "get_coordinates_for_pincode gmaps p = Some r \<Longrightarrow> pincode r = p"
  by (auto simp: get_coordinates_for_pincode_def split: sum.splits list.splits prod.splits)

lemma set_unique_pincodes: "set (unique_pincodes col) = set (dropna col)"
  by (simp add: unique_pincodes_def)

lemma main_stops:
  "use_existing response cache_file
     \<or> filter (\<lambda>p. p \<notin> cached_pincodes response cache_file) (unique_pincodes col) = []
     \<or> confirm \<noteq> ''y''
   \<Longrightarrow> main gmaps response confirm col cache_file
         = \<lparr>cache_after = cache_file, fetched = [], report = None\<rparr>"
  by (auto simp: main_def Let_def)

lemma main_runs:
  assumes "\<not> use_existing response cache_file"
    and "filter (\<lambda>p. p \<notin> cached_pincodes response cache_file) (unique_pincodes col) = todo"
    and "todo \<noteq> []" and "confirm = ''y''"
  shows "fetched (main gmaps response confirm col cache_file) = todo"
    and "report (main gmaps response confirm col cache_file)
          = Some \<lparr>need_to_fetch = length todo,
                    saved_new = length (fetch_loop gmaps todo []),
                    total_in_cache =
                      length (the (cache_after (main gmaps response confirm col cache_file))),
                    total_processed = length (fetch_loop gmaps todo []),
                    successful = length (fetch_loop gmaps todo [])\<rparr>"
    and "cache_after (main gmaps response confirm col cache_file)
          = Some (case cache_file of None \<Rightarrow> fetch_loop gmaps todo []
                  | Some cached_df \<Rightarrow>
                      if cached_pincodes response cache_file \<noteq> {}
                      then cached_df @ fetch_loop gmaps todo [] else fetch_loop gmaps todo [])"
  using assms by (simp_all add: main_def Let_def)

lemma main_report:
  assumes "report (main gmaps response confirm col cache_file) = Some rep"
  shows "need_to_fetch rep = length (fetched (main gmaps response confirm col cache_file))
       \<and> successful rep
           = length (fetch_loop gmaps (fetched (main gmaps response confirm col cache_file)) [])
       \<and> fetched (main gmaps response confirm col cache_file) \<noteq> []"
proof -
  let ?todo = "filter (\<lambda>p. p \<notin> cached_pincodes response cache_file) (unique_pincodes col)"
  have "\<not> (use_existing response cache_file \<or> ?todo = [] \<or> confirm \<noteq> ''y'')"
  proof
    assume "use_existing response cache_file \<or> ?todo = [] \<or> confirm \<noteq> ''y''"
    then have "main gmaps response confirm col cache_file
         = \<lparr>cache_after = cache_file, fetched = [], report = None\<rparr>"
      by (rule main_stops)
    then have "report (main gmaps response confirm col cache_file) = None"
      by simp
    with assms show False by simp
  qed
  then have a: "\<not> use_existing response cache_file" "?todo \<noteq> []" "confirm = ''y''"
    by blast+
  show ?thesis
    using assms main_runs(1) [OF a(1) refl a(2) a(3), of gmaps]
      main_runs(2) [OF a(1) refl a(2) a(3), of gmaps] a(2)
    by auto
qed

text \<open>
  C4. In append mode (answer \<open>A\<close> on an existing cache file), when every pincode of
  the cleaned address records is the pincode of a cache row, the run sends no pincode to
  the provider and leaves the cache file as it was, whatever the provider and the second
  answer are; so does a second append run on the file the first one left.
\<close>

theorem append_all_cached_noop:
  assumes "\<forall>p \<in> set (dropna col). p \<in> set (map pincode cached_df)"
  shows "main gmaps ''A'' confirm col (Some cached_df)
           = \<lparr>cache_after = Some cached_df, fetched = [], report = None\<rparr>
       \<and> main gmaps2 ''A'' confirm2 col
             (cache_after (main gmaps ''A'' confirm col (Some cached_df)))
           = \<lparr>cache_after = Some cached_df, fetched = [], report = None\<rparr>"
proof -
  have "filter (\<lambda>p. p \<notin> cached_pincodes ''A'' (Some cached_df)) (unique_pincodes col) = []"
    using assms by (auto simp: cached_pincodes_def set_unique_pincodes filter_empty_conv)
  then have "\<And>g c. main g ''A'' c col (Some cached_df)
           = \<lparr>cache_after = Some cached_df, fetched = [], report = None\<rparr>"
    by (simp add: main_stops)
  then show ?thesis by simp
qed

theorem append_all_cached_noop_witness:
  "set (dropna [Some 110001, None, Some 400001, Some (110001 :: int)])
     \<subseteq> set (map pincode [mumbai_row, delhi_row])
   \<and> main example_gmaps ''A'' ''y'' [Some 110001, None, Some 400001, Some 110001]
        (Some [mumbai_row, delhi_row])
       = \<lparr>cache_after = Some [mumbai_row, delhi_row], fetched = [], report = None\<rparr>"
proof -
  have h: "\<forall>p \<in> set (dropna [Some 110001, None, Some 400001, Some 110001]).
             p \<in> set (map pincode [mumbai_row, delhi_row])"
    by (simp add: dropna_def delhi_row_def mumbai_row_def)
  show ?thesis
    using h append_all_cached_noop [OF h, of example_gmaps "''y''" example_gmaps "''y''"]
    by auto
qed

text \<open>
  C6, as the claim states it, fails: on a run that fetches three pincodes of which one
  resolves, the summary block prints 1 under "Total pincodes processed" and 1 under
  "Successful"; the count of attempted pincodes, 3, is printed only before the fetch
  loop, and the count of skipped pincodes, 2, is none of the numbers of the report.
\<close>

theorem report_counts_counterexample:
  "fetched (main example_gmaps ''R'' ''y'' [Some 600001, Some 110001, Some 700001] None)
      = [110001, 600001, 700001]
   \<and> report (main example_gmaps ''R'' ''y'' [Some 600001, Some 110001, Some 700001] None)
      = Some \<lparr>need_to_fetch = 3, saved_new = 1, total_in_cache = 1,
               total_processed = 1, successful = 1\<rparr>"
  by (simp add: main_def use_existing_def cached_pincodes_def unique_pincodes_def dropna_def
      Let_def example_gmaps_def get_coordinates_for_pincode_def delhi_candidate_def
      bare_candidate_def)

text \<open>
  C6, amended. A run that reaches its report has sent at least one pincode to the
  provider; the report gives the number of pincodes attempted (printed before the fetch
  loop) and the number resolved, which is the number of attempted pincodes whose lookup
  returned a row and so is at most the number attempted. Both are functions of the list
  of pincodes to fetch and of the outcome of each lookup. No count of skipped pincodes
  is reported.
\<close>

theorem report_counts:
  assumes "report (main gmaps response confirm col cache_file) = Some rep"
  shows "need_to_fetch rep = length (fetched (main gmaps response confirm col cache_file))
       \<and> successful rep = length (filter (\<lambda>p. get_coordinates_for_pincode gmaps p \<noteq> None)
                                   (fetched (main gmaps response confirm col cache_file)))
       \<and> successful rep \<le> need_to_fetch rep
       \<and> 0 < need_to_fetch rep"
  using main_report [OF assms] by (simp add: length_fetch_loop)

theorem report_counts_witness:
  "report (main example_gmaps ''R'' ''y'' [Some 600001, Some 110001, Some 560001] None)
     = Some \<lparr>need_to_fetch = 3, saved_new = 2, total_in_cache = 2,
              total_processed = 2, successful = 2\<rparr>
   \<and> length (fetched (main example_gmaps ''R'' ''y''
                [Some 600001, Some 110001, Some 560001] None)) = 3
   \<and> length (filter (\<lambda>p. get_coordinates_for_pincode example_gmaps p \<noteq> None)
        (fetched (main example_gmaps ''R'' ''y''
                [Some 600001, Some 110001, Some 560001] None))) = 2"
proof -
  have r: "report (main example_gmaps ''R'' ''y'' [Some 600001, Some 110001, Some 560001] None)
     = Some \<lparr>need_to_fetch = 3, saved_new = 2, total_in_cache = 2,
              total_processed = 2, successful = 2\<rparr>"
    by (simp add: main_def use_existing_def cached_pincodes_def unique_pincodes_def dropna_def
        Let_def example_gmaps_def get_coordinates_for_pincode_def delhi_candidate_def
        bare_candidate_def)
  show ?thesis using r report_counts [OF r] by simp
qed

text \<open>
  C9, as the claim states it, fails: a refetch run over address data with no parseable
  pincode has nothing to fetch, ends at line 93 and leaves the cache file as it was, so
  the cached entry of a pincode that the address data does not hold is still there.
\<close>

theorem refetch_rebuilds_cache_counterexample:
  "cache_after (main example_gmaps ''R'' ''y'' [None] (Some [delhi_row])) = Some [delhi_row]
   \<and> fetched (main example_gmaps ''R'' ''y'' [None] (Some [delhi_row])) = []
   \<and> pincode delhi_row \<notin> set (dropna [None])"
  by (simp add: main_def use_existing_def cached_pincodes_def unique_pincodes_def dropna_def
      Let_def delhi_row_def)

text \<open>
  C9, amended. In refetch mode (an answer other than \<open>U\<close> and \<open>A\<close> on an existing
  cache file), when the address data holds at least one pincode and the batch is
  confirmed, the cache file after the run is the list of rows that the lookups of this
  run returned for the observed pincodes, and nothing else: no row of it has the pincode
  of a former entry that is not observed or whose lookup failed.
\<close>

theorem refetch_rebuilds_cache:
  assumes "response \<noteq> ''U''" and "response \<noteq> ''A''" and "confirm = ''y''"
    and "dropna col \<noteq> []"
  shows "cache_after (main gmaps response confirm col (Some cached_df))
           = Some (fetch_loop gmaps (unique_pincodes col) [])
       \<and> set (fetch_loop gmaps (unique_pincodes col) [])
           = {r. \<exists>p \<in> set (dropna col). get_coordinates_for_pincode gmaps p = Some r}
       \<and> (\<forall>old \<in> set cached_df.
             pincode old \<notin> set (dropna col)
               \<or> get_coordinates_for_pincode gmaps (pincode old) = None
             \<longrightarrow> pincode old \<notin> set (map pincode (fetch_loop gmaps (unique_pincodes col) [])))"
proof -
  have ne: "unique_pincodes col \<noteq> []"
    using assms(4) set_unique_pincodes [of col] by (metis set_empty)
  have 1: "cache_after (main gmaps response confirm col (Some cached_df))
           = Some (fetch_loop gmaps (unique_pincodes col) [])"
    using assms(1-3) ne by (simp add: main_def use_existing_def cached_pincodes_def Let_def)
  have 2: "set (fetch_loop gmaps (unique_pincodes col) [])
           = {r. \<exists>p \<in> set (dropna col). get_coordinates_for_pincode gmaps p = Some r}"
    by (simp add: set_fetch_loop set_unique_pincodes)
  have 3: "\<forall>old \<in> set cached_df.
             pincode old \<notin> set (dropna col)
               \<or> get_coordinates_for_pincode gmaps (pincode old) = None
             \<longrightarrow> pincode old \<notin> set (map pincode (fetch_loop gmaps (unique_pincodes col) []))"
    using 2 get_coordinates_pincode by fastforce
  show ?thesis using 1 2 3 by blast
qed

theorem refetch_rebuilds_cache_witness:
  "''R'' \<noteq> ''U'' \<and> ''R'' \<noteq> ''A'' \<and> dropna [Some 600001, None, Some (110001 :: int)] \<noteq> []
   \<and> cache_after (main example_gmaps ''R'' ''y'' [Some 600001, None, Some 110001]
        (Some [mumbai_row, delhi_row])) = Some [delhi_row]
   \<and> fetch_loop example_gmaps (unique_pincodes [Some 600001, None, Some 110001]) [] = [delhi_row]"
proof -
  have a: "''R'' \<noteq> ''U''" "''R'' \<noteq> ''A''" "''y'' = ''y''"
    "dropna [Some 600001, None, Some (110001 :: int)] \<noteq> []"
    by (simp_all add: dropna_def)
  have b: "fetch_loop example_gmaps (unique_pincodes [Some 600001, None, Some 110001]) []
             = [delhi_row]"
    by (simp add: unique_pincodes_def dropna_def example_gmaps_def
        get_coordinates_for_pincode_def delhi_candidate_def delhi_row_def)
  show ?thesis
    using a b
      refetch_rebuilds_cache [OF a, of example_gmaps "[mumbai_row, delhi_row]"]
    by simp
qed

section \<open>The aggregation\<close>

lemma set_dropna: "set (dropna col) = {v. Some v \<in> set col}"
  by (induction col) (auto simp: dropna_def split: option.splits)

lemma set_group_keys: "set (group_keys df) = {k. \<exists>r \<in> set df. CPA_PIN_CODE r = Some k}"
  by (force simp: group_keys_def set_dropna)

lemma distinct_group_keys: "distinct (group_keys df)"
  by (simp add: group_keys_def)

lemma group_rows_nonempty: "k \<in> set (group_keys df) \<Longrightarrow> group_rows k df \<noteq> []"
  by (auto simp: set_group_keys group_rows_def filter_empty_conv)


lemma most_common_total: "x \<noteq> [] \<Longrightarrow> \<exists>v. most_common x = Inr v"
  by (cases x) (auto simp: most_common_def)

lemma agg_group_total: "g \<noteq> [] \<Longrightarrow> \<exists>l. agg_group k g = Inr l"
proof -
  assume g: "g \<noteq> []"
  obtain c where c: "most_common (map CPA_ADDR_CITY g) = Inr c"
    using most_common_total [of "map CPA_ADDR_CITY g"] g by auto
  obtain s where s: "most_common (map StateName g) = Inr s"
    using most_common_total [of "map StateName g"] g by auto
  show ?thesis by (simp add: agg_group_def c s)
qed

lemma agg_group_Inr:
  assumes "agg_group k g = Inr l"
  shows "key_pincode l = k"
    and "median_Latitude l = median (map Latitude g)"
    and "median_Longitude l = median (map Longitude g)"
    and "most_common (map CPA_ADDR_CITY g) = Inr (common_city l)"
    and "most_common (map StateName g) = Inr (common_state l)"
  using assms by (auto simp: agg_group_def split: sum.splits)

lemma agg_groups_Inr:
  "agg_groups df ks = Inr ls \<Longrightarrow>
     list_all2 (\<lambda>k l. agg_group k (group_rows k df) = Inr l) ks ls"
  by (induction ks arbitrary: ls) (auto split: sum.splits)

lemma agg_groups_total:
  "\<forall>k \<in> set ks. group_rows k df \<noteq> [] \<Longrightarrow> \<exists>ls. agg_groups df ks = Inr ls"
proof (induction ks)
  case Nil
  then show ?case by simp
next
  case (Cons k ks)
  obtain l where "agg_group k (group_rows k df) = Inr l"
    using agg_group_total Cons.prems by fastforce
  moreover obtain ls where "agg_groups df ks = Inr ls"
    using Cons by auto
  ultimately show ?case by simp
qed

lemma agg_keys:
  "list_all2 (\<lambda>k l. agg_group k (group_rows k df) = Inr l) ks ls \<Longrightarrow> map key_pincode ls = ks"
  by (induction ks ls rule: list_all2_induct) (auto simp: agg_group_Inr(1))

lemma filter_key_single:
  "distinct (map f xs) \<Longrightarrow> x \<in> set xs \<Longrightarrow> filter (\<lambda>y. f y = f x) xs = [x]"
proof (induction xs)
  case Nil
  then show ?case by simp
next
  case (Cons a xs)
  show ?case
  proof (cases "a = x")
    case True
    then have "filter (\<lambda>y. f y = f x) xs = []"
      using Cons.prems(1) by (auto simp: filter_empty_conv image_iff)
    with True show ?thesis by simp
  next
    case False
    then have "x \<in> set xs" using Cons.prems(2) by simp
    moreover have "f a \<noteq> f x" using Cons.prems(1) \<open>x \<in> set xs\<close> by auto
    ultimately show ?thesis using Cons by simp
  qed
qed

lemma merge_on_pincode_keys:
  assumes "distinct (map key_pincode ls)"
  shows "merge_on_pincode (map (\<lambda>k. (k, c k)) (map key_pincode ls)) ls
           = map (\<lambda>l. (c (key_pincode l), l)) ls"
proof -
  have "\<And>l0. l0 \<in> set ls \<Longrightarrow>
      map (\<lambda>l. (c (key_pincode l0), l)) (filter (\<lambda>l. key_pincode l = key_pincode l0) ls)
        = [(c (key_pincode l0), l0)]"
    using filter_key_single [OF assms] by simp
  then have "map (\<lambda>l0. map (\<lambda>l. (c (key_pincode l0), l))
                 (filter (\<lambda>l. key_pincode l = key_pincode l0) ls)) ls
           = map (\<lambda>l0. [(c (key_pincode l0), l0)]) ls"
    by simp
  then have "concat (map (\<lambda>l0. map (\<lambda>l. (c (key_pincode l0), l))
                 (filter (\<lambda>l. key_pincode l = key_pincode l0) ls)) ls)
           = concat (map (\<lambda>l0. [(c (key_pincode l0), l0)]) ls)"
    by (rule arg_cong)
  also have "\<dots> = map (\<lambda>l. (c (key_pincode l), l)) ls"
    by (induction ls) simp_all
  finally show ?thesis
    by (simp add: merge_on_pincode_def comp_def)
qed

lemma pincode_summary_Inr:
  assumes fdf_def: "fdf = filter_year selected_year df"
  shows "\<exists>ls. list_all2 (\<lambda>k l. agg_group k (group_rows k fdf) = Inr l) (group_keys fdf) ls
          \<and> pincode_summary argsort selected_year df
              = Inr (sort_values_desc argsort
                  (map (\<lambda>l. with_percentage (length fdf)
                          (length (group_rows (key_pincode l) fdf), l)) ls))"
proof -
  obtain ls where ls: "agg_groups fdf (group_keys fdf) = Inr ls"
    using agg_groups_total [of "group_keys fdf" fdf] group_rows_nonempty by blast
  have a: "list_all2 (\<lambda>k l. agg_group k (group_rows k fdf) = Inr l) (group_keys fdf) ls"
    using ls by (rule agg_groups_Inr)
  have k: "map key_pincode ls = group_keys fdf"
    using a by (rule agg_keys)
  have d: "distinct (map key_pincode ls)"
    using k distinct_group_keys by simp
  have m: "merge_on_pincode (pincode_counts fdf) ls
             = map (\<lambda>l. (length (group_rows (key_pincode l) fdf), l)) ls"
    using merge_on_pincode_keys [OF d, of "\<lambda>k. length (group_rows k fdf)"]
    by (simp add: pincode_counts_def k)
  have "pincode_summary argsort selected_year df
              = Inr (sort_values_desc argsort
                  (map (\<lambda>l. with_percentage (length fdf)
                          (length (group_rows (key_pincode l) fdf), l)) ls))"
    unfolding pincode_summary_def Let_def pincode_locations_def
    using ls m by (simp add: fdf_def comp_def)
  with a show ?thesis by blast
qed

lemma mset_take_indexer:
  assumes "mset p = mset [0..<length xs]"
  shows "mset (map (\<lambda>i. xs ! i) p) = mset xs"
proof -
  have "mset (map (\<lambda>i. xs ! i) p) = image_mset (\<lambda>i. xs ! i) (mset p)"
    by simp
  also have "\<dots> = mset (map (\<lambda>i. xs ! i) [0..<length xs])"
    using assms by simp
  also have "\<dots> = mset xs"
    by (simp add: map_nth)
  finally show ?thesis .
qed

lemma sort_values_desc_mset:
  assumes "argsort_desc_ok (map customer_count df) (argsort (map customer_count df))"
  shows "mset (sort_values_desc argsort df) = mset df"
  using assms mset_take_indexer [of "argsort (map customer_count df)" df]
  by (simp add: argsort_desc_ok_def sort_values_desc_def)

lemma sort_values_desc_sorted:
  assumes "argsort_desc_ok (map customer_count df) (argsort (map customer_count df))"
  shows "sorted_wrt (\<lambda>a b. customer_count b \<le> customer_count a) (sort_values_desc argsort df)"
proof -
  let ?p = "argsort (map customer_count df)"
  have s: "set ?p = {0..<length df}"
    using assms by (metis argsort_desc_ok_def length_map set_mset_mset set_upt)
  have "sorted_wrt (\<lambda>i j. map customer_count df ! j \<le> map customer_count df ! i) ?p"
    using assms by (simp add: argsort_desc_ok_def)
  then have "sorted_wrt (\<lambda>i j. customer_count (df ! j) \<le> customer_count (df ! i)) ?p"
    by (rule sorted_wrt_mono_rel [rotated]) (use s in auto)
  then show ?thesis
    by (simp add: sort_values_desc_def sorted_wrt_map)
qed

lemma stable_argsort_ok: "argsort_desc_ok ks (stable_argsort ks)"
proof -
  have "sorted (map (\<lambda>i. - int (ks ! i)) (stable_argsort ks))"
    by (simp add: stable_argsort_def)
  then have "sorted_wrt (\<lambda>i j. - int (ks ! i) \<le> - int (ks ! j)) (stable_argsort ks)"
    by (simp add: sorted_map)
  then have "sorted_wrt (\<lambda>i j. ks ! j \<le> ks ! i) (stable_argsort ks)"
    by (rule sorted_wrt_mono_rel [rotated]) simp
  then show ?thesis
    by (simp add: argsort_desc_ok_def stable_argsort_def)
qed

lemma filter_year_conv:
  "filter_year selected_year xs = filter (\<lambda>r. selected_year = None \<or> Year r = selected_year) xs"
  by (cases selected_year) (auto simp: filter_year_def)






subsection \<open>The join of load\_data\<close>

lemma merge_left_Cons:
  "merge_left (r # rs) cache = merge_left [r] cache @ merge_left rs cache"
  by (simp add: merge_left_def)












lemma load_data_dropna_pin: "load_data (dropna_pin xs) cache = load_data xs cache"
  by (simp add: load_data_def dropna_pin_def)



subsection \<open>The pipeline on the example data\<close>

lemmas pipeline_defs = pincode_summary_def filter_year_def Let_def
     pincode_counts_def group_keys_def group_rows_def dropna_def pincode_locations_def agg_group_def
     most_common_def mode_def median_def merge_on_pincode_def with_percentage_def sort_values_desc_def

lemmas load_defs = load_data_def dropna_pin_def merge_left_def rename_fillna_def dropna_coords_def

lemma scenario_loaded:
  "load_data scenario_addresses [delhi_row, bangalore_row] =
     [\<lparr>CPA_PIN_CODE = Some 110001, CPA_ADDR_CITY = Some ''New Delhi'', Year = Some 2021,
       Latitude = Some (286/10), Longitude = Some (772/10), StateName = Some ''Delhi''\<rparr>,
      \<lparr>CPA_PIN_CODE = Some 110001, CPA_ADDR_CITY = Some ''New Delhi'', Year = Some 2022,
       Latitude = Some (286/10), Longitude = Some (772/10), StateName = Some ''Delhi''\<rparr>,
      \<lparr>CPA_PIN_CODE = Some 560001, CPA_ADDR_CITY = Some ''Bengaluru'', Year = Some 2022,
       Latitude = Some (1297/100), Longitude = Some (7759/100), StateName = Some ''Karnataka''\<rparr>]"
  by (simp add: load_defs scenario_addresses_def delhi_row_def bangalore_row_def
      del: not_None_eq)


lemma scenario_summary_2022_stable:
  "pincode_summary stable_argsort (Some 2022)
       (load_data scenario_addresses [delhi_row, bangalore_row]) =
     Inr [\<lparr>key_pincode = 110001, median_Latitude = Some (286/10),
           median_Longitude = Some (772/10), common_city = Some ''New Delhi'',
           common_state = Some ''Delhi'', customer_count = 1, percentage = 50\<rparr>,
          \<lparr>key_pincode = 560001, median_Latitude = Some (1297/100),
           median_Longitude = Some (7759/100), common_city = Some ''Bengaluru'',
           common_state = Some ''Karnataka'', customer_count = 1, percentage = 50\<rparr>]"
  unfolding scenario_loaded by (simp add: pipeline_defs stable_argsort_def)

lemma twice_loaded:
  "load_data two_addresses resolved_twice =
     [\<lparr>CPA_PIN_CODE = Some 560001, CPA_ADDR_CITY = Some ''Bengaluru'', Year = Some 2022,
       Latitude = Some (1297/100), Longitude = Some (7759/100), StateName = Some ''Karnataka''\<rparr>,
      \<lparr>CPA_PIN_CODE = Some 560001, CPA_ADDR_CITY = Some ''Bengaluru'', Year = Some 2022,
       Latitude = Some (1303/100), Longitude = Some (7760/100), StateName = Some ''Karnataka''\<rparr>,
      \<lparr>CPA_PIN_CODE = Some 560001, CPA_ADDR_CITY = Some ''Bengaluru'', Year = Some 2022,
       Latitude = Some (1299/100), Longitude = Some (7758/100), StateName = Some ''Karnataka''\<rparr>,
      \<lparr>CPA_PIN_CODE = Some 110001, CPA_ADDR_CITY = Some ''New Delhi'', Year = Some 2022,
       Latitude = Some (2860/100), Longitude = Some (7720/100), StateName = Some ''Delhi''\<rparr>,
      \<lparr>CPA_PIN_CODE = Some 110001, CPA_ADDR_CITY = Some ''New Delhi'', Year = Some 2022,
       Latitude = Some (2864/100), Longitude = Some (7722/100), StateName = Some ''Delhi''\<rparr>]"
  by (simp add: load_defs two_addresses_def resolved_twice_def del: not_None_eq)

lemma twice_summary:
  "pincode_summary stable_argsort None (load_data two_addresses resolved_twice) =
     Inr [\<lparr>key_pincode = 560001, median_Latitude = Some (1299/100),
           median_Longitude = Some (7759/100), common_city = Some ''Bengaluru'',
           common_state = Some ''Karnataka'', customer_count = 3, percentage = 60\<rparr>,
          \<lparr>key_pincode = 110001, median_Latitude = Some (2862/100),
           median_Longitude = Some (7721/100), common_city = Some ''New Delhi'',
           common_state = Some ''Delhi'', customer_count = 2, percentage = 40\<rparr>]"
  unfolding twice_loaded by (simp add: pipeline_defs stable_argsort_def)

lemma nameless_loaded:
  "load_data nameless_addresses [nameless_row] =
     [\<lparr>CPA_PIN_CODE = Some 700001, CPA_ADDR_CITY = None, Year = Some 2023,
       Latitude = Some (2257/100), Longitude = Some (8836/100), StateName = None\<rparr>,
      \<lparr>CPA_PIN_CODE = Some 700001, CPA_ADDR_CITY = None, Year = None,
       Latitude = Some (2257/100), Longitude = Some (8836/100), StateName = None\<rparr>]"
  by (simp add: load_defs nameless_addresses_def nameless_row_def del: not_None_eq)

lemma nameless_summary:
  "pincode_summary stable_argsort None (load_data nameless_addresses [nameless_row]) =
     Inr [\<lparr>key_pincode = 700001, median_Latitude = Some (2257/100),
           median_Longitude = Some (8836/100), common_city = None,
           common_state = None, customer_count = 2, percentage = 100\<rparr>]"
  unfolding nameless_loaded by (simp add: pipeline_defs stable_argsort_def)

lemma twice_groups:
  "group_rows 560001 (filter_year None (load_data two_addresses resolved_twice)) =
     [\<lparr>CPA_PIN_CODE = Some 560001, CPA_ADDR_CITY = Some ''Bengaluru'', Year = Some 2022,
       Latitude = Some (1297/100), Longitude = Some (7759/100), StateName = Some ''Karnataka''\<rparr>,
      \<lparr>CPA_PIN_CODE = Some 560001, CPA_ADDR_CITY = Some ''Bengaluru'', Year = Some 2022,
       Latitude = Some (1303/100), Longitude = Some (7760/100), StateName = Some ''Karnataka''\<rparr>,
      \<lparr>CPA_PIN_CODE = Some 560001, CPA_ADDR_CITY = Some ''Bengaluru'', Year = Some 2022,
       Latitude = Some (1299/100), Longitude = Some (7758/100), StateName = Some ''Karnataka''\<rparr>]"
  "group_rows 110001 (filter_year None (load_data two_addresses resolved_twice)) =
     [\<lparr>CPA_PIN_CODE = Some 110001, CPA_ADDR_CITY = Some ''New Delhi'', Year = Some 2022,
       Latitude = Some (2860/100), Longitude = Some (7720/100), StateName = Some ''Delhi''\<rparr>,
      \<lparr>CPA_PIN_CODE = Some 110001, CPA_ADDR_CITY = Some ''New Delhi'', Year = Some 2022,
       Latitude = Some (2864/100), Longitude = Some (7722/100), StateName = Some ''Delhi''\<rparr>]"
  unfolding twice_loaded by (simp_all add: group_rows_def filter_year_def)

subsection \<open>Counts and percentages\<close>




subsection \<open>The rows of the summary\<close>

lemma list_all2_member2:
  "list_all2 P xs ys \<Longrightarrow> y \<in> set ys \<Longrightarrow> \<exists>x \<in> set xs. P x y"
  by (induction xs ys rule: list_all2_induct) auto

lemma list_all2_member1:
  "list_all2 P xs ys \<Longrightarrow> x \<in> set xs \<Longrightarrow> \<exists>y \<in> set ys. P x y"
  by (induction xs ys rule: list_all2_induct) auto

lemma summary_rows:
  assumes ok: "\<And>ks. argsort_desc_ok ks (argsort ks)"
    and summ: "pincode_summary argsort selected_year df = Inr summ"
    and fdf: "fdf = filter_year selected_year df"
  shows "set summ = {with_percentage (length fdf) (length (group_rows k fdf), l) | k l.
                       k \<in> set (group_keys fdf) \<and> agg_group k (group_rows k fdf) = Inr l}"
    and "sorted_wrt (\<lambda>a b. customer_count b \<le> customer_count a) summ"
    and "mset (map key_pincode summ) = mset (group_keys fdf)"
proof -
  obtain ls where ls: "list_all2 (\<lambda>k l. agg_group k (group_rows k fdf) = Inr l) (group_keys fdf) ls"
    and eq: "pincode_summary argsort selected_year df
              = Inr (sort_values_desc argsort
                  (map (\<lambda>l. with_percentage (length fdf)
                          (length (group_rows (key_pincode l) fdf), l)) ls))"
    using pincode_summary_Inr [OF fdf] by blast
  define U where "U = map (\<lambda>l. with_percentage (length fdf)
                          (length (group_rows (key_pincode l) fdf), l)) ls"
  have s: "summ = sort_values_desc argsort U"
    using summ eq by (simp add: U_def)
  have perm: "mset summ = mset U"
    unfolding s using ok by (rule sort_values_desc_mset)
  then have "set summ = set U"
    by (rule mset_eq_setD)
  also have "\<dots> = {with_percentage (length fdf) (length (group_rows k fdf), l) | k l.
                       k \<in> set (group_keys fdf) \<and> agg_group k (group_rows k fdf) = Inr l}"
  proof (intro set_eqI iffI)
    fix x assume "x \<in> set U"
    then obtain l where l: "l \<in> set ls"
      and x: "x = with_percentage (length fdf) (length (group_rows (key_pincode l) fdf), l)"
      by (auto simp: U_def)
    obtain k where k: "k \<in> set (group_keys fdf)" "agg_group k (group_rows k fdf) = Inr l"
      using list_all2_member2 [OF ls l] by blast
    then have "key_pincode l = k" by (simp add: agg_group_Inr(1))
    with k x show "x \<in> {with_percentage (length fdf) (length (group_rows k fdf), l) | k l.
                       k \<in> set (group_keys fdf) \<and> agg_group k (group_rows k fdf) = Inr l}"
      by blast
  next
    fix x assume "x \<in> {with_percentage (length fdf) (length (group_rows k fdf), l) | k l.
                       k \<in> set (group_keys fdf) \<and> agg_group k (group_rows k fdf) = Inr l}"
    then obtain k l where k: "k \<in> set (group_keys fdf)" "agg_group k (group_rows k fdf) = Inr l"
      and x: "x = with_percentage (length fdf) (length (group_rows k fdf), l)"
      by blast
    obtain l' where l': "l' \<in> set ls" "agg_group k (group_rows k fdf) = Inr l'"
      using list_all2_member1 [OF ls k(1)] by blast
    then have "l' = l" using k(2) by simp
    moreover have "key_pincode l = k" using k(2) by (simp add: agg_group_Inr(1))
    ultimately show "x \<in> set U"
      using l'(1) x by (auto simp: U_def)
  qed
  finally show "set summ = {with_percentage (length fdf) (length (group_rows k fdf), l) | k l.
                       k \<in> set (group_keys fdf) \<and> agg_group k (group_rows k fdf) = Inr l}" .
  show "sorted_wrt (\<lambda>a b. customer_count b \<le> customer_count a) summ"
    unfolding s using ok by (rule sort_values_desc_sorted)
  have "map key_pincode U = group_keys fdf"
    using agg_keys [OF ls] by (simp add: U_def with_percentage_def comp_def)
  then show "mset (map key_pincode summ) = mset (group_keys fdf)"
    using perm by (metis mset_map)
qed

lemma map_Some_dropna:
  "\<forall>x \<in> set col. x \<noteq> None \<Longrightarrow> map Some (dropna col) = col"
  by (induction col) (auto simp: dropna_def)

lemma load_data_coords:
  "m \<in> set (load_data address_df cache) \<Longrightarrow> Latitude m \<noteq> None \<and> Longitude m \<noteq> None"
  by (simp add: load_data_def dropna_coords_def)

lemma set_filter_year: "set (filter_year selected_year xs) \<subseteq> set xs"
  by (auto simp: filter_year_conv)

lemma median_odd:
  assumes "odd (length (dropna col))"
  shows "median col = Some (sort (dropna col) ! (length (dropna col) div 2))"
proof -
  have "length (dropna col) \<noteq> 0" using assms by (metis even_zero)
  then have "sort (dropna col) \<noteq> []" by (metis length_0_conv length_sort)
  moreover have "length (dropna col) mod 2 = 1" using assms by (simp add: odd_iff_mod_2_eq_one)
  ultimately show ?thesis by (simp add: median_def Let_def)
qed

lemma median_even:
  assumes "even (length (dropna col))" and "dropna col \<noteq> []"
  shows "median col = Some ((sort (dropna col) ! (length (dropna col) div 2 - 1)
                              + sort (dropna col) ! (length (dropna col) div 2)) / 2)"
proof -
  have "length (dropna col) mod 2 \<noteq> 1" using assms(1) by (simp add: odd_iff_mod_2_eq_one [symmetric])
  moreover have "sort (dropna col) \<noteq> []" using assms(2) by (metis length_0_conv length_sort)
  ultimately show ?thesis by (simp add: median_def Let_def)
qed

text \<open>
  C2. For every row of the summary, the group of its pincode in the filtered frame has
  as many rows as its \<open>customer_count\<close>, at least one, each with a latitude and a
  longitude; the representative latitude is the middle value of the group's latitudes
  in ascending order when the group has an odd number of rows and the average of the
  two middle values when it has an even number, and so is the representative longitude.
  The witness has a group of three whose median differs from its mean.
\<close>

theorem representative_is_median:
  assumes ok: "\<And>ks. argsort_desc_ok ks (argsort ks)"
    and summ: "pincode_summary argsort selected_year (load_data address_df pincode_coords) = Inr summ"
    and s: "s \<in> set summ"
    and g: "g = group_rows (key_pincode s)
                  (filter_year selected_year (load_data address_df pincode_coords))"
    and lats: "lats = sort (dropna (map Latitude g))"
    and lons: "lons = sort (dropna (map Longitude g))"
    and n: "n = length g"
  shows "customer_count s = n \<and> 0 < n
       \<and> sorted lats \<and> mset (map Some lats) = mset (map Latitude g)
       \<and> sorted lons \<and> mset (map Some lons) = mset (map Longitude g)
       \<and> (odd n \<longrightarrow> median_Latitude s = Some (lats ! (n div 2))
                    \<and> median_Longitude s = Some (lons ! (n div 2)))
       \<and> (even n \<longrightarrow> median_Latitude s = Some ((lats ! (n div 2 - 1) + lats ! (n div 2)) / 2)
                     \<and> median_Longitude s = Some ((lons ! (n div 2 - 1) + lons ! (n div 2)) / 2))"
proof -
  define fdf where "fdf = filter_year selected_year (load_data address_df pincode_coords)"
  obtain k l where k: "k \<in> set (group_keys fdf)" and l: "agg_group k (group_rows k fdf) = Inr l"
    and sv: "s = with_percentage (length fdf) (length (group_rows k fdf), l)"
    using summary_rows(1) [OF ok summ fdf_def] s by blast
  have key: "key_pincode s = k"
    using sv agg_group_Inr(1) [OF l] by (simp add: with_percentage_def)
  have gk: "g = group_rows k fdf"
    using g key by (simp add: fdf_def)
  have cnt: "customer_count s = n"
    using sv gk n by (simp add: with_percentage_def)
  have pos: "0 < n"
    using group_rows_nonempty [OF k] gk n by simp
  have sub: "set g \<subseteq> set (load_data address_df pincode_coords)"
    using set_filter_year [of selected_year "load_data address_df pincode_coords"]
    by (auto simp: gk fdf_def group_rows_def)
  have la: "map Some (dropna (map Latitude g)) = map Latitude g"
    using sub load_data_coords by (intro map_Some_dropna) auto
  have lo: "map Some (dropna (map Longitude g)) = map Longitude g"
    using sub load_data_coords by (intro map_Some_dropna) auto
  have lla: "length (dropna (map Latitude g)) = n"
    using arg_cong [OF la, of length] n by simp
  have llo: "length (dropna (map Longitude g)) = n"
    using arg_cong [OF lo, of length] n by simp
  have "mset (map Some lats) = mset (map Some (dropna (map Latitude g)))"
    by (simp add: lats)
  then have mla: "mset (map Some lats) = mset (map Latitude g)"
    by (simp only: la)
  have "mset (map Some lons) = mset (map Some (dropna (map Longitude g)))"
    by (simp add: lons)
  then have mlo: "mset (map Some lons) = mset (map Longitude g)"
    by (simp only: lo)
  have mlat: "median_Latitude s = median (map Latitude g)"
    using sv agg_group_Inr(2) [OF l] gk by (simp add: with_percentage_def)
  have mlon: "median_Longitude s = median (map Longitude g)"
    using sv agg_group_Inr(3) [OF l] gk by (simp add: with_percentage_def)
  have odd_case: "odd n \<longrightarrow> median_Latitude s = Some (lats ! (n div 2))
                    \<and> median_Longitude s = Some (lons ! (n div 2))"
    using median_odd [of "map Latitude g"] median_odd [of "map Longitude g"]
    by (simp add: mlat mlon lla llo lats lons)
  have ne: "dropna (map Latitude g) \<noteq> []" "dropna (map Longitude g) \<noteq> []"
    using pos lla llo by auto
  have even_case: "even n \<longrightarrow>
        median_Latitude s = Some ((lats ! (n div 2 - 1) + lats ! (n div 2)) / 2)
      \<and> median_Longitude s = Some ((lons ! (n div 2 - 1) + lons ! (n div 2)) / 2)"
    using median_even [OF _ ne(1)] median_even [OF _ ne(2)]
    by (simp add: mlat mlon lla llo lats lons)
  show ?thesis
    using cnt pos mla mlo odd_case even_case by (simp add: lats lons)
qed

theorem representative_is_median_witness:
  "pincode_summary stable_argsort None (load_data two_addresses resolved_twice) =
     Inr [\<lparr>key_pincode = 560001, median_Latitude = Some (1299/100),
           median_Longitude = Some (7759/100), common_city = Some ''Bengaluru'',
           common_state = Some ''Karnataka'', customer_count = 3, percentage = 60\<rparr>,
          \<lparr>key_pincode = 110001, median_Latitude = Some (2862/100),
           median_Longitude = Some (7721/100), common_city = Some ''New Delhi'',
           common_state = Some ''Delhi'', customer_count = 2, percentage = 40\<rparr>]
   \<and> sort (dropna (map Latitude
        (group_rows 560001 (filter_year None (load_data two_addresses resolved_twice)))))
       = [1297/100, 1299/100, 1303/100]
   \<and> Some (1299/100 :: real) = Some ([1297/100, 1299/100, 1303/100] ! (3 div 2))
   \<and> (1299/100 :: real) \<noteq> (1297/100 + 1303/100 + 1299/100) / 3
   \<and> sort (dropna (map Latitude
        (group_rows 110001 (filter_year None (load_data two_addresses resolved_twice)))))
       = [2860/100, 2864/100]
   \<and> Some (2862/100 :: real)
       = Some (([2860/100, 2864/100] ! (2 div 2 - 1) + [2860/100, 2864/100] ! (2 div 2)) / 2)"
proof -
  let ?s1 = "\<lparr>key_pincode = 560001, median_Latitude = Some (1299/100),
           median_Longitude = Some (7759/100), common_city = Some ''Bengaluru'',
           common_state = Some ''Karnataka'', customer_count = 3, percentage = 60\<rparr>"
  let ?s2 = "\<lparr>key_pincode = 110001, median_Latitude = Some (2862/100),
           median_Longitude = Some (7721/100), common_city = Some ''New Delhi'',
           common_state = Some ''Delhi'', customer_count = 2, percentage = 40\<rparr>"
  have l1: "sort (dropna (map Latitude
        (group_rows 560001 (filter_year None (load_data two_addresses resolved_twice)))))
       = [1297/100, 1299/100, 1303/100]"
    unfolding twice_groups by (simp add: dropna_def)
  have l2: "sort (dropna (map Latitude
        (group_rows 110001 (filter_year None (load_data two_addresses resolved_twice)))))
       = [2860/100, 2864/100]"
    unfolding twice_groups by (simp add: dropna_def)
  have m1: "?s1 \<in> set [?s1, ?s2]" by simp
  have m2: "?s2 \<in> set [?s1, ?s2]" by simp
  have n1: "length (group_rows 560001 (filter_year None (load_data two_addresses resolved_twice))) = 3"
    unfolding twice_groups by simp
  have n2: "length (group_rows 110001 (filter_year None (load_data two_addresses resolved_twice))) = 2"
    unfolding twice_groups by simp
  have a: "median_Latitude ?s1 = Some ([1297/100, 1299/100, 1303/100] ! (3 div 2))"
    using representative_is_median [OF stable_argsort_ok twice_summary m1 refl refl refl refl]
    by (simp add: l1 n1)
  have b: "median_Latitude ?s2
       = Some (([2860/100, 2864/100] ! (2 div 2 - 1) + [2860/100, 2864/100] ! (2 div 2)) / 2)"
    using representative_is_median [OF stable_argsort_ok twice_summary m2 refl refl refl refl]
    by (simp add: l2 n2)
  show ?thesis
    using a b l1 l2 twice_summary by simp
qed

subsection \<open>The order of the summary\<close>









subsection \<open>Groups without a city or a state\<close>

lemma mode_all_null: "\<forall>x \<in> set col. x = None \<Longrightarrow> mode col = []"
proof -
  assume "\<forall>x \<in> set col. x = None"
  then have "dropna col = []"
    by (induction col) (auto simp: dropna_def)
  then show ?thesis by (simp add: mode_def)
qed

lemma most_common_all_null:
  "col \<noteq> [] \<Longrightarrow> \<forall>x \<in> set col. x = None \<Longrightarrow> most_common col = Inr None"
  by (cases col) (auto simp: most_common_def mode_all_null)

text \<open>
  C10. For every pincode with at least one row in the filtered frame the aggregation
  returns a summary sequence (the lambda of lines 95-96 does not raise) that has a row
  for the pincode, counting the rows of its group. When the city of every row of the
  group is null, the mode of the cities is empty and the row's city is null, the first
  value of the group; likewise for the state.
\<close>

theorem null_group_summary:
  assumes ok: "\<And>ks. argsort_desc_ok ks (argsort ks)"
    and g: "g = group_rows k (filter_year selected_year df)"
    and ne: "g \<noteq> []"
  shows "\<exists>summ. pincode_summary argsort selected_year df = Inr summ
           \<and> (\<exists>s \<in> set summ. key_pincode s = k \<and> customer_count s = length g
                 \<and> ((\<forall>r \<in> set g. CPA_ADDR_CITY r = None)
                       \<longrightarrow> mode (map CPA_ADDR_CITY g) = [] \<and> common_city s = None)
                 \<and> ((\<forall>r \<in> set g. StateName r = None)
                       \<longrightarrow> mode (map StateName g) = [] \<and> common_state s = None))"
proof -
  define fdf where "fdf = filter_year selected_year df"
  obtain summ where summ: "pincode_summary argsort selected_year df = Inr summ"
    using pincode_summary_Inr [OF fdf_def] by blast
  have "\<exists>r \<in> set fdf. CPA_PIN_CODE r = Some k"
    using ne g by (simp add: fdf_def group_rows_def filter_empty_conv)
  then have k: "k \<in> set (group_keys fdf)"
    by (simp add: set_group_keys)
  obtain l where l: "agg_group k g = Inr l"
    using agg_group_total [OF ne] by blast
  define s where "s = with_percentage (length fdf) (length g, l)"
  have mem: "s \<in> set summ"
    unfolding summary_rows(1) [OF ok summ fdf_def] s_def
    using k l g by (auto simp: fdf_def)
  have f: "key_pincode s = k" "customer_count s = length g"
    "common_city s = common_city l" "common_state s = common_state l"
    using agg_group_Inr(1) [OF l] by (simp_all add: s_def with_percentage_def)
  have c: "(\<forall>r \<in> set g. CPA_ADDR_CITY r = None)
             \<longrightarrow> mode (map CPA_ADDR_CITY g) = [] \<and> common_city s = None"
    using agg_group_Inr(4) [OF l] ne mode_all_null [of "map CPA_ADDR_CITY g"]
      most_common_all_null [of "map CPA_ADDR_CITY g"]
    by (auto simp: f)
  have st: "(\<forall>r \<in> set g. StateName r = None)
             \<longrightarrow> mode (map StateName g) = [] \<and> common_state s = None"
    using agg_group_Inr(5) [OF l] ne mode_all_null [of "map StateName g"]
      most_common_all_null [of "map StateName g"]
    by (auto simp: f)
  show ?thesis
    using summ mem f(1,2) c st by blast
qed

theorem null_group_summary_witness:
  "group_rows 700001 (filter_year None (load_data nameless_addresses [nameless_row])) \<noteq> []
   \<and> pincode_summary stable_argsort None (load_data nameless_addresses [nameless_row]) =
     Inr [\<lparr>key_pincode = 700001, median_Latitude = Some (2257/100),
           median_Longitude = Some (8836/100), common_city = None,
           common_state = None, customer_count = 2, percentage = 100\<rparr>]
   \<and> mode (map CPA_ADDR_CITY
        (group_rows 700001 (filter_year None (load_data nameless_addresses [nameless_row])))) = []
   \<and> mode (map StateName
        (group_rows 700001 (filter_year None (load_data nameless_addresses [nameless_row])))) = []"
proof -
  have g: "group_rows 700001 (filter_year None (load_data nameless_addresses [nameless_row])) =
     [\<lparr>CPA_PIN_CODE = Some 700001, CPA_ADDR_CITY = None, Year = Some 2023,
       Latitude = Some (2257/100), Longitude = Some (8836/100), StateName = None\<rparr>,
      \<lparr>CPA_PIN_CODE = Some 700001, CPA_ADDR_CITY = None, Year = None,
       Latitude = Some (2257/100), Longitude = Some (8836/100), StateName = None\<rparr>]"
    unfolding nameless_loaded by (simp add: group_rows_def filter_year_def)
  have ne: "group_rows 700001 (filter_year None (load_data nameless_addresses [nameless_row])) \<noteq> []"
    unfolding g by simp
  have c: "\<forall>r \<in> set (group_rows 700001
              (filter_year None (load_data nameless_addresses [nameless_row]))).
             CPA_ADDR_CITY r = None"
    unfolding g by simp
  have s: "\<forall>r \<in> set (group_rows 700001
              (filter_year None (load_data nameless_addresses [nameless_row]))).
             StateName r = None"
    unfolding g by simp
  show ?thesis
    using ne c s nameless_summary
      null_group_summary [OF stable_argsort_ok refl ne]
    by auto
qed

section \<open>Marker and cluster colours\<close>

lemma count_colours_agree_off_100:
  "sum_list counts \<noteq> 100 \<Longrightarrow> cluster_color_count counts = marker_color_count (sum_list counts)"
  by (auto simp: cluster_color_count_def marker_color_count_def Let_def)

text \<open>
  C7 does not hold of the code at a count of exactly 100: the marker of a pincode with
  100 customers is light blue (line 244 tests \<open>> 100\<close>), a cluster whose counts add
  up to 100 is light green (line 190 tests \<open>>= 100\<close>), and the legend of lines 333-337
  puts 100 in the green tier for markers and clusters alike.
\<close>

theorem count_colour_at_100:
  "marker_color_count 100 = lightblue
   \<and> cluster_color_count [60, 40] = lightgreen
   \<and> legend_color_count 100 = lightgreen"
  by (simp add: marker_color_count_def cluster_color_count_def legend_color_count_def)

section \<open>Further properties\<close>

subsection \<open>One cache row per pincode\<close>

lemma pincodes_fetch_loop:
  "map pincode (fetch_loop gmaps ps []) =
     filter (\<lambda>p. get_coordinates_for_pincode gmaps p \<noteq> None) ps"
  by (induction ps) (auto simp: fetch_loop_append get_coordinates_pincode split: option.splits)

lemma distinct_unique_pincodes: "distinct (unique_pincodes col)"
  by (simp add: unique_pincodes_def)

text \<open>
  The reconciler keeps the cache at one row per pincode: when the cache file, if it
  exists, has no pincode twice, neither has the file that any run leaves, in any mode
  (for pincode cells that are integers, as everywhere in this embedding).
\<close>

theorem main_keeps_one_row_per_pincode:
  assumes inv: "\<forall>cached_df. cache_file = Some cached_df \<longrightarrow> distinct (map pincode cached_df)"
    and after: "cache_after (main gmaps response confirm col cache_file) = Some combined_df"
  shows "distinct (map pincode combined_df)"
proof -
  let ?todo = "filter (\<lambda>p. p \<notin> cached_pincodes response cache_file) (unique_pincodes col)"
  let ?results = "fetch_loop gmaps ?todo []"
  show ?thesis
  proof (cases "use_existing response cache_file \<or> ?todo = [] \<or> confirm \<noteq> ''y''")
    case True
    then have "cache_after (main gmaps response confirm col cache_file) = cache_file"
      using main_stops [of response cache_file col confirm gmaps] by simp
    then show ?thesis using inv after by simp
  next
    case False
    then have a: "\<not> use_existing response cache_file" "?todo \<noteq> []" "confirm = ''y''"
      by blast+
    have d: "distinct (map pincode ?results)"
      by (simp add: pincodes_fetch_loop distinct_unique_pincodes)
    have new: "set (map pincode ?results) \<inter> cached_pincodes response cache_file = {}"
      by (auto simp: pincodes_fetch_loop)
    have eq: "Some combined_df
          = Some (case cache_file of None \<Rightarrow> ?results
                  | Some cached_df \<Rightarrow>
                      if cached_pincodes response cache_file \<noteq> {}
                      then cached_df @ ?results else ?results)"
      using main_runs(3) [OF a(1) refl a(2) a(3), of gmaps] after by simp
    show ?thesis
    proof (cases cache_file)
      case None
      then show ?thesis using eq d by simp
    next
      case (Some cached_df)
      show ?thesis
      proof (cases "cached_pincodes response cache_file = {}")
        case True
        then show ?thesis using eq d Some by simp
      next
        case False
        then have c: "cached_pincodes response cache_file = set (map pincode cached_df)"
          using Some by (auto simp: cached_pincodes_def split: if_splits)
        have "combined_df = cached_df @ ?results"
          using eq Some False by simp
        then show ?thesis
          using d inv Some new c by auto
      qed
    qed
  qed
qed

theorem main_keeps_one_row_per_pincode_witness:
  "distinct (map pincode [mumbai_row])
   \<and> cache_after (main example_gmaps ''A'' ''y'' [Some 600001, None, Some 110001, Some 400001]
        (Some [mumbai_row])) = Some [mumbai_row, delhi_row]
   \<and> distinct (map pincode [mumbai_row, delhi_row])"
proof -
  have i: "\<forall>cached_df. Some [mumbai_row] = Some cached_df \<longrightarrow> distinct (map pincode cached_df)"
    by simp
  have r: "cache_after (main example_gmaps ''A'' ''y'' [Some 600001, None, Some 110001, Some 400001]
        (Some [mumbai_row])) = Some [mumbai_row, delhi_row]"
    by (simp add: main_def use_existing_def cached_pincodes_def unique_pincodes_def dropna_def
        Let_def example_gmaps_def get_coordinates_for_pincode_def delhi_candidate_def
        delhi_row_def mumbai_row_def)
  show ?thesis
    using main_keeps_one_row_per_pincode [OF i r] r by simp
qed

subsection \<open>Ties under a stable sort\<close>

lemma insort_key_ties:
  fixes f :: "nat \<Rightarrow> int"
  assumes "sorted_wrt (\<lambda>i j. f i < f j \<or> (f i = f j \<and> i < j)) L" and "\<forall>y \<in> set L. x < y"
  shows "sorted_wrt (\<lambda>i j. f i < f j \<or> (f i = f j \<and> i < j)) (insort_key f x L)"
  using assms
proof (induction L)
  case Nil
  then show ?case by simp
next
  case (Cons y L)
  show ?case
  proof (cases "f x \<le> f y")
    case True
    have "\<forall>z \<in> set (y # L). f x < f z \<or> (f x = f z \<and> x < z)"
      using True Cons.prems by fastforce
    then show ?thesis using True Cons.prems(1) by simp
  next
    case False
    have "sorted_wrt (\<lambda>i j. f i < f j \<or> (f i = f j \<and> i < j)) (insort_key f x L)"
      using Cons by simp
    moreover have "\<forall>z \<in> set (insort_key f x L). f y < f z \<or> (f y = f z \<and> y < z)"
      using False Cons.prems(1) by (auto simp: set_insort_key)
    ultimately show ?thesis using False by simp
  qed
qed

lemma sort_key_ties:
  fixes f :: "nat \<Rightarrow> int"
  assumes "sorted_wrt (<) xs"
  shows "sorted_wrt (\<lambda>i j. f i < f j \<or> (f i = f j \<and> i < j)) (sort_key f xs)"
  using assms
proof (induction xs)
  case Nil
  then show ?case by simp
next
  case (Cons x xs)
  then show ?case
    using insort_key_ties [of f "sort_key f xs" x] by simp
qed

lemma sorted_group_keys: "sorted_wrt (<) (group_keys df)"
  by (simp add: group_keys_def strict_sorted_iff)

text \<open>
  With the indexer of a stable sort (\<open>kind='stable'\<close>) in place of the default one,
  the summary sequence is in descending order of \<open>customer_count\<close> with rows of equal
  count in ascending order of pincode: the order that C3 describes.
\<close>

theorem stable_sort_breaks_ties_by_pincode:
  assumes "pincode_summary stable_argsort selected_year df = Inr summ"
  shows "sorted_wrt (\<lambda>a b. customer_count b < customer_count a
                        \<or> (customer_count a = customer_count b \<and> key_pincode a < key_pincode b))
           summ"
proof -
  define fdf where "fdf = filter_year selected_year df"
  obtain ls where ls: "list_all2 (\<lambda>k l. agg_group k (group_rows k fdf) = Inr l) (group_keys fdf) ls"
    and eq: "pincode_summary stable_argsort selected_year df
              = Inr (sort_values_desc stable_argsort
                  (map (\<lambda>l. with_percentage (length fdf)
                          (length (group_rows (key_pincode l) fdf), l)) ls))"
    using pincode_summary_Inr [OF fdf_def] by blast
  define U where "U = map (\<lambda>l. with_percentage (length fdf)
                          (length (group_rows (key_pincode l) fdf), l)) ls"
  define f where "f = (\<lambda>i. - int (map customer_count U ! i))"
  have s: "summ = map (\<lambda>i. U ! i) (sort_key f [0..<length U])"
    using assms eq by (simp add: U_def sort_values_desc_def stable_argsort_def f_def)
  have keys: "sorted_wrt (<) (map key_pincode U)"
    using agg_keys [OF ls] sorted_group_keys [of fdf]
    by (simp add: U_def with_percentage_def comp_def)
  have p: "sorted_wrt (\<lambda>i j. f i < f j \<or> (f i = f j \<and> i < j)) (sort_key f [0..<length U])"
    by (rule sort_key_ties) (simp add: sorted_wrt_upt)
  have step: "\<And>i j. i < length U \<Longrightarrow> j < length U \<Longrightarrow> f i < f j \<or> (f i = f j \<and> i < j) \<Longrightarrow>
      customer_count (U ! j) < customer_count (U ! i)
        \<or> (customer_count (U ! i) = customer_count (U ! j) \<and> key_pincode (U ! i) < key_pincode (U ! j))"
  proof -
    fix i j assume b: "i < length U" "j < length U" and r: "f i < f j \<or> (f i = f j \<and> i < j)"
    have "i < j \<Longrightarrow> key_pincode (U ! i) < key_pincode (U ! j)"
      using keys b sorted_wrt_nth_less [of "(<)" "map key_pincode U" i j] by simp
    then show "customer_count (U ! j) < customer_count (U ! i)
        \<or> (customer_count (U ! i) = customer_count (U ! j) \<and> key_pincode (U ! i) < key_pincode (U ! j))"
      using r b by (auto simp: f_def)
  qed
  have "sorted_wrt (\<lambda>i j. customer_count (U ! j) < customer_count (U ! i)
        \<or> (customer_count (U ! i) = customer_count (U ! j) \<and> key_pincode (U ! i) < key_pincode (U ! j)))
          (sort_key f [0..<length U])"
    using p by (rule sorted_wrt_mono_rel [rotated]) (use step in auto)
  then show ?thesis
    by (simp add: s sorted_wrt_map)
qed

theorem stable_sort_breaks_ties_by_pincode_witness:
  "pincode_summary stable_argsort (Some 2022)
       (load_data scenario_addresses [delhi_row, bangalore_row]) =
     Inr [\<lparr>key_pincode = 110001, median_Latitude = Some (286/10),
           median_Longitude = Some (772/10), common_city = Some ''New Delhi'',
           common_state = Some ''Delhi'', customer_count = 1, percentage = 50\<rparr>,
          \<lparr>key_pincode = 560001, median_Latitude = Some (1297/100),
           median_Longitude = Some (7759/100), common_city = Some ''Bengaluru'',
           common_state = Some ''Karnataka'', customer_count = 1, percentage = 50\<rparr>]
   \<and> (110001 :: int) < 560001"
  using scenario_summary_2022_stable
    stable_sort_breaks_ties_by_pincode [OF scenario_summary_2022_stable]
  by simp

subsection \<open>Colours in percentage mode\<close>

text \<open>
  In percentage mode the colour of a cluster is the colour that a marker of the summed
  percentage would have: the thresholds of lines 162-164 are those of lines 228-233.
\<close>

theorem percentage_colour_of_cluster:
  "cluster_color_percentage pcts = marker_color_percentage (sum_list pcts)"
  by (simp add: cluster_color_percentage_def marker_color_percentage_def Let_def)

end
